theory Spec2Isabelle
  imports Complex_Main "HOL-Library.Char_ord" "HOL-Library.List_Lexorder"
begin

section \<open>The normal distribution used by \<open>line_probability\<close>\<close>

text \<open>
  \<open>predict.py\<close> builds \<open>stats.norm(loc=prediction, scale=std)\<close> and reads its \<open>cdf\<close> and
  \<open>sf\<close>. Python floats are idealised as real numbers; rounding can make two different
  reals the same float, so the statements about the returned probability compare with
  \<open>\<le>\<close> only. The distribution function of the
  standard normal law is \<open>(1 + erf (z / sqrt 2)) / 2\<close>, with the error function given by its
  everywhere convergent series
  \<open>erf x = 2 / sqrt pi * (\<Sum>m. (-1)^m * x^(2m+1) / (m! * (2m+1)))\<close>.
  For \<open>scale \<le> 0\<close> the library yields \<open>nan\<close>, which the reals do not have: every statement
  about the distribution below assumes \<open>0 < std\<close>.
\<close>

definition erf_term :: "real \<Rightarrow> nat \<Rightarrow> real" where
  "erf_term x m = (- 1) ^ m * x ^ (2 * m + 1) / (fact m * real (2 * m + 1))"

definition erf_series :: "real \<Rightarrow> real" where
  "erf_series x = (\<Sum>m. erf_term x m)"

definition erf :: "real \<Rightarrow> real" where
  "erf x = 2 / sqrt pi * erf_series x"

definition std_normal_cdf :: "real \<Rightarrow> real" where
  "std_normal_cdf z = (1 + erf (z / sqrt 2)) / 2"

text \<open>\<open>stats.norm(loc, scale).cdf(x)\<close> and \<open>.sf(x)\<close>; the survival function is \<open>1 - cdf\<close>.\<close>

definition norm_cdf :: "real \<Rightarrow> real \<Rightarrow> real \<Rightarrow> real" where
  "norm_cdf loc scale x = std_normal_cdf ((x - loc) / scale)"

definition norm_sf :: "real \<Rightarrow> real \<Rightarrow> real \<Rightarrow> real" where
  "norm_sf loc scale x = 1 - norm_cdf loc scale x"

text \<open>The coefficients of the same series read as a power series in \<open>x\<close>.\<close>

definition erf_coeff :: "nat \<Rightarrow> real" where
  "erf_coeff n =
     (if even n then 0 else (- 1) ^ ((n - 1) div 2) / (fact ((n - 1) div 2) * real n))"

section \<open>\<open>line_probability\<close>\<close>

text \<open>
  What a call of \<open>line_probability\<close> hands back: a pair \<open>(probability, tag)\<close>, a bare float,
  or \<open>None\<close> when the function runs off its last \<open>elif\<close>.
\<close>

datatype py_result = PyTuple real string | PyFloat real | PyNone

definition line_probability :: "real \<Rightarrow> real \<Rightarrow> real \<Rightarrow> py_result" where
  "line_probability prediction line std =
     (let line_prediction = - 1 * line in
      if prediction > line_prediction
        then PyTuple (norm_cdf prediction std line_prediction) ''cdf''
      else if prediction < line_prediction
        then PyTuple (norm_sf prediction std line_prediction) ''sf''
      else if prediction = line_prediction
        then PyFloat 0.5
      else PyNone)"

text \<open>The number a result carries, whichever shape it has.\<close>

fun probability_of :: "py_result \<Rightarrow> real option" where
  "probability_of (PyTuple pr tag) = Some pr"
| "probability_of (PyFloat pr) = Some pr"
| "probability_of PyNone = None"

section \<open>Team names\<close>

text \<open>
  Strings are lists of characters. \<open>str.lower\<close> is modelled on ASCII text: the twenty-six
  capital letters go to their small forms and every other character stays as it is.
\<close>

definition lower_char :: "char \<Rightarrow> char" where
  "lower_char c =
     (case map_of (zip ''ABCDEFGHIJKLMNOPQRSTUVWXYZ'' ''abcdefghijklmnopqrstuvwxyz'') c of
        Some l \<Rightarrow> l
      | None \<Rightarrow> c)"

definition lower :: "string \<Rightarrow> string" where
  "lower s = map lower_char s"

text \<open>The values of the enumeration \<open>br_references.Team\<close>, in definition order.\<close>

definition Team :: "string list" where
  "Team =
    [''ATLANTA HAWKS'', ''BOSTON CELTICS'', ''BROOKLYN NETS'', ''CHARLOTTE HORNETS'',
     ''CHICAGO BULLS'', ''CLEVELAND CAVALIERS'', ''DALLAS MAVERICKS'', ''DENVER NUGGETS'',
     ''DETROIT PISTONS'', ''GOLDEN STATE WARRIORS'', ''HOUSTON ROCKETS'', ''INDIANA PACERS'',
     ''LOS ANGELES CLIPPERS'', ''LOS ANGELES LAKERS'', ''MEMPHIS GRIZZLIES'', ''MIAMI HEAT'',
     ''MILWAUKEE BUCKS'', ''MINNESOTA TIMBERWOLVES'', ''NEW ORLEANS PELICANS'',
     ''NEW YORK KNICKS'', ''OKLAHOMA CITY THUNDER'', ''ORLANDO MAGIC'', ''PHILADELPHIA 76ERS'',
     ''PHOENIX SUNS'', ''PORTLAND TRAIL BLAZERS'', ''SACRAMENTO KINGS'', ''SAN ANTONIO SPURS'',
     ''TORONTO RAPTORS'', ''UTAH JAZZ'', ''WASHINGTON WIZARDS'',
     ''CHARLOTTE BOBCATS'', ''NEW JERSEY NETS'', ''NEW ORLEANS HORNETS'',
     ''NEW ORLEANS/OKLAHOMA CITY HORNETS'', ''SEATTLE SUPERSONICS'', ''VANCOUVER GRIZZLIES'']"

definition four_factors :: "string list" where
  "four_factors =
    [''efg_pct'', ''tov_pct'', ''orb_pct'', ''ft_rate'',
     ''opp_efg_pct'', ''opp_tov_pct'', ''drb_pct'', ''opp_ft_rate'']"

text \<open>
  \<open>get_team_name\<close> walks the enumeration and returns at the first member whose lowered
  value equals the lowered input; when the loop ends without a match the function falls
  off its end and the caller receives \<open>None\<close>.
\<close>

definition get_team_name :: "string \<Rightarrow> string option" where
  "get_team_name team = find (\<lambda>team_name. lower team = lower team_name) Team"

section \<open>Data frames\<close>

datatype error = AttributeError | KeyError | IndexError | TypeError | ValueError
  | OverflowError | NoGames int int int

text \<open>
  The statistics table: a \<open>team_name\<close> column and numeric columns, each row holding its
  numbers in column order. A numeric frame is a list of column names and rows of numbers.
\<close>

record stats_row =
  team_name :: string
  stat_values :: "real list"

record stats_table =
  stat_columns :: "string list"
  stat_rows :: "stats_row list"

record frame =
  columns :: "string list"
  rows :: "real list list"

text \<open>
  The value of a row under a column name. A frame is rectangular, so the name of an
  existing column always finds its value.
\<close>

definition cell :: "string list \<Rightarrow> real list \<Rightarrow> string \<Rightarrow> real" where
  "cell cols vals c = (case map_of (zip cols vals) c of Some v \<Rightarrow> v | None \<Rightarrow> 0)"

text \<open>
  Modelled from the spec: \<open>lm.append_h\<close> and \<open>lm.append_a\<close> live in
  \<open>four_factor_regression.py\<close>, which is not among the sources; the spec has each selected
  column renamed by appending \<open>_h\<close> for the home role and \<open>_a\<close> for the away role.
\<close>

definition append_h :: "string \<Rightarrow> string" where
  "append_h c = c @ ''_h''"

definition append_a :: "string \<Rightarrow> string" where
  "append_a c = c @ ''_a''"

definition rename_columns :: "(string \<Rightarrow> string) \<Rightarrow> frame \<Rightarrow> frame" where
  "rename_columns f df = df\<lparr>columns := map f (columns df)\<rparr>"

text \<open>
  \<open>get_team_ff\<close>: the row mask compares lowered names, so a \<open>team\<close> that is \<open>None\<close> raises
  on \<open>team.lower()\<close>; the selection \<open>[ff_list]\<close> raises when a column is missing; the rows
  that pass the mask are all kept, however many there are.
\<close>

definition get_team_ff :: "string option \<Rightarrow> stats_table \<Rightarrow> bool \<Rightarrow> error + frame" where
  "get_team_ff team ff_df home =
     (let ff_list = four_factors in
      case team of
        None \<Rightarrow> Inl AttributeError
      | Some tm \<Rightarrow>
          let matching = filter (\<lambda>r. lower (team_name r) = lower tm) (stat_rows ff_df) in
          if \<not> set ff_list \<subseteq> set (stat_columns ff_df) then Inl KeyError
          else
            let team_ff = \<lparr>columns = ff_list,
                  rows = map (\<lambda>r. map (cell (stat_columns ff_df) (stat_values r)) ff_list)
                           matching\<rparr>
            in if home then Inr (rename_columns append_h team_ff)
               else Inr (rename_columns append_a team_ff))"

text \<open>\<open>df[name] = v\<close>: overwrite the column when it exists, append it otherwise.\<close>

definition set_column :: "string \<Rightarrow> real \<Rightarrow> frame \<Rightarrow> frame" where
  "set_column name v df =
     (if name \<in> set (columns df)
      then df\<lparr>rows := map (\<lambda>r. map (\<lambda>(c, x). if c = name then v else x) (zip (columns df) r))
                          (rows df)\<rparr>
      else \<lparr>columns = columns df @ [name], rows = map (\<lambda>r. r @ [v]) (rows df)\<rparr>)"

definition without :: "string \<Rightarrow> string list \<Rightarrow> 'a list \<Rightarrow> 'a list" where
  "without name cols xs = map snd (filter (\<lambda>(c, x). c \<noteq> name) (zip cols xs))"

text \<open>
  \<open>pd.merge(left, right, on=key, sort=True)\<close>, an inner join: every pair of a left and a
  right row with equal keys, ordered by key; the left columns, then the right columns
  other than the key; a name on both sides gets \<open>_x\<close> on the left and \<open>_y\<close> on the right.
\<close>

definition merge_frames :: "frame \<Rightarrow> frame \<Rightarrow> string \<Rightarrow> error + frame" where
  "merge_frames left right on =
     (if on \<notin> set (columns left) \<or> on \<notin> set (columns right) then Inl KeyError
      else
        let lcols = map (\<lambda>c. if c \<noteq> on \<and> c \<in> set (columns right) then c @ ''_x'' else c)
                      (columns left);
            rcols = map (\<lambda>c. if c \<in> set (columns left) then c @ ''_y'' else c)
                      (without on (columns right) (columns right));
            joined = concat (map (\<lambda>l. map (\<lambda>r. (cell (columns left) l on,
                                                  l @ without on (columns right) r))
                                     (filter (\<lambda>r. cell (columns left) l on
                                                     = cell (columns right) r on)
                                        (rows right)))
                               (rows left))
        in Inr \<lparr>columns = lcols @ rcols, rows = map snd (sort_key fst joined)\<rparr>)"

text \<open>\<open>df.drop([name], axis=1)\<close>.\<close>

definition drop_column :: "frame \<Rightarrow> string \<Rightarrow> error + frame" where
  "drop_column df name =
     (if name \<notin> set (columns df) then Inl KeyError
      else Inr \<lparr>columns = without name (columns df) (columns df),
                rows = map (without name (columns df)) (rows df)\<rparr>)"

text \<open>
  \<open>df.sort_index(axis=1)\<close>: the columns in the order of their names, strings compared
  character by character, and each row rearranged with them.
\<close>

definition sort_index :: "frame \<Rightarrow> frame" where
  "sort_index df =
     \<lparr>columns = sort (columns df),
      rows = map (\<lambda>r. map snd (sort_key fst (zip (columns df) r))) (rows df)\<rparr>"

definition create_prediction_df ::
  "string option \<Rightarrow> string option \<Rightarrow> stats_table \<Rightarrow> error + frame" where
  "create_prediction_df home_tm away_tm ff_df =
     (case get_team_ff home_tm ff_df True of
        Inl e \<Rightarrow> Inl e
      | Inr home_ff \<Rightarrow>
     (case get_team_ff away_tm ff_df False of
        Inl e \<Rightarrow> Inl e
      | Inr away_ff \<Rightarrow>
          let home_ff = set_column ''key'' 1 home_ff;
              home_ff = set_column ''const'' 1.0 home_ff;
              away_ff = set_column ''key'' 1 away_ff
          in (case merge_frames home_ff away_ff ''key'' of
                Inl e \<Rightarrow> Inl e
              | Inr merged \<Rightarrow>
             (case drop_column merged ''key'' of
                Inl e \<Rightarrow> Inl e
              | Inr merged \<Rightarrow> Inr (sort_index merged)))))"

text \<open>The seventeen feature names in the order of their spelling.\<close>

definition prediction_columns :: "string list" where
  "prediction_columns =
     [''const'', ''drb_pct_a'', ''drb_pct_h'', ''efg_pct_a'', ''efg_pct_h'',
      ''ft_rate_a'', ''ft_rate_h'', ''opp_efg_pct_a'', ''opp_efg_pct_h'',
      ''opp_ft_rate_a'', ''opp_ft_rate_h'', ''opp_tov_pct_a'', ''opp_tov_pct_h'',
      ''orb_pct_a'', ''orb_pct_h'', ''tov_pct_a'', ''tov_pct_h'']"

section \<open>Predicting one game\<close>

text \<open>
  The fitted regression that \<open>lm.main\<close> returns is taken as given: \<open>predict\<close> stands for
  \<open>reg.results.predict(pred_df).values\<close>, one number per row of the frame or an error of
  the library, and \<open>residuals\<close> for \<open>reg.residuals\<close>.
\<close>

record regression =
  predict :: "frame \<Rightarrow> error + real list"
  residuals :: "real list"

text \<open>
  \<open>np.std\<close>: the root of the mean squared deviation from the mean. On an empty list the
  library yields \<open>nan\<close>; no statement below depends on that value.
\<close>

definition np_std :: "real list \<Rightarrow> real" where
  "np_std xs =
     (let n = real (length xs); mu = sum_list xs / n
      in sqrt (sum_list (map (\<lambda>x. (x - mu)\<^sup>2) xs) / n))"

definition get_prediction :: "regression \<Rightarrow> frame \<Rightarrow> error + real" where
  "get_prediction reg pred_df =
     (case predict reg pred_df of
        Inl e \<Rightarrow> Inl e
      | Inr vals \<Rightarrow> (case vals of [] \<Rightarrow> Inl IndexError | v # _ \<Rightarrow> Inr v))"

text \<open>
  What a caller passes for a team: a string, or the one-element list that
  \<open>predict_games_on_day\<close> writes in its branch without lines. Calling \<open>get_team_name\<close> on a
  list raises at \<open>team.lower()\<close> in the first round of the loop.
\<close>

datatype py_arg = PyStr string | PyList "string list"

definition get_team_name_call :: "py_arg \<Rightarrow> error + string option" where
  "get_team_name_call team =
     (case team of PyStr s \<Rightarrow> Inr (get_team_name s) | PyList l \<Rightarrow> Inl AttributeError)"

text \<open>Times are counted in microseconds from the start of the first of January of year 1.\<close>

type_synonym timestamp = int

record prediction_result =
  start_time :: timestamp
  home_team :: "string option"
  away_team :: "string option"
  line :: real
  prediction :: real
  probability :: real
  function_tag :: string

text \<open>
  \<open>predict_game\<close>, with the regression of \<open>lm.main(year)\<close> and the table read from the
  database passed in; printing to the console is left out. The result of
  \<open>line_probability\<close> is unpacked into two names, which raises \<open>TypeError\<close> for anything
  but a pair.
\<close>

definition predict_game ::
  "regression \<Rightarrow> stats_table \<Rightarrow> timestamp \<Rightarrow> py_arg \<Rightarrow> py_arg \<Rightarrow> real
     \<Rightarrow> error + prediction_result" where
  "predict_game reg ff_df start home_tm away_tm home_line =
     (case get_team_name_call home_tm of
        Inl e \<Rightarrow> Inl e
      | Inr home \<Rightarrow>
     (case get_team_name_call away_tm of
        Inl e \<Rightarrow> Inl e
      | Inr away \<Rightarrow>
     (case create_prediction_df home away ff_df of
        Inl e \<Rightarrow> Inl e
      | Inr pred_df \<Rightarrow>
     (case get_prediction reg pred_df of
        Inl e \<Rightarrow> Inl e
      | Inr pred \<Rightarrow>
     (case line_probability pred home_line (np_std (residuals reg)) of
        PyTuple prob func \<Rightarrow>
          Inr \<lparr>start_time = start, home_team = home, away_team = away, line = home_line,
               prediction = pred, probability = prob, function_tag = func\<rparr>
      | PyFloat x \<Rightarrow> Inl TypeError
      | PyNone \<Rightarrow> Inl TypeError)))))"

section \<open>Predicting the games of a day\<close>

text \<open>
  The calendar of \<open>datetime\<close>: the constructor rejects a date that does not exist, and
  adding a \<open>timedelta\<close> raises when the sum leaves the years 1 to 9999.
\<close>

definition is_leap :: "int \<Rightarrow> bool" where
  "is_leap y = (y mod 4 = 0 \<and> (y mod 100 \<noteq> 0 \<or> y mod 400 = 0))"

definition days_in_month :: "int \<Rightarrow> int \<Rightarrow> int" where
  "days_in_month y m =
     (if m = 2 then (if is_leap y then 29 else 28)
      else if m = 4 \<or> m = 6 \<or> m = 9 \<or> m = 11 then 30
      else 31)"

definition days_before_year :: "int \<Rightarrow> int" where
  "days_before_year y = (y - 1) * 365 + (y - 1) div 4 - (y - 1) div 100 + (y - 1) div 400"

definition days_before_month :: "int \<Rightarrow> int \<Rightarrow> int" where
  "days_before_month y m = sum_list (map (days_in_month y) [1..m - 1])"

definition ymd2ord :: "int \<Rightarrow> int \<Rightarrow> int \<Rightarrow> int" where
  "ymd2ord y m d = days_before_year y + days_before_month y m + d"

definition us_per_day :: int where
  "us_per_day = 86400000000"

definition datetime :: "int \<Rightarrow> int \<Rightarrow> int \<Rightarrow> error + timestamp" where
  "datetime y m d =
     (if 1 \<le> y \<and> y \<le> 9999 \<and> 1 \<le> m \<and> m \<le> 12 \<and> 1 \<le> d \<and> d \<le> days_in_month y m
      then Inr ((ymd2ord y m d - 1) * us_per_day)
      else Inl ValueError)"

definition add_days :: "timestamp \<Rightarrow> int \<Rightarrow> error + timestamp" where
  "add_days t n =
     (let r = t + n * us_per_day
      in if 0 \<le> r \<and> r < ymd2ord 9999 12 31 * us_per_day then Inr r else Inl OverflowError)"

record sched_row =
  game_id :: int
  game_start :: timestamp
  game_home :: string
  game_away :: string

text \<open>The date mask and the rows it keeps (the first four statements of the function).\<close>

definition games_on_date :: "int \<Rightarrow> int \<Rightarrow> int \<Rightarrow> sched_row list \<Rightarrow> error + sched_row list" where
  "games_on_date day month year sched_df =
     (case datetime year month day of
        Inl e \<Rightarrow> Inl e
      | Inr date \<Rightarrow>
     (case add_days date 1 of
        Inl e \<Rightarrow> Inl e
      | Inr next_day \<Rightarrow>
          Inr (filter (\<lambda>row. game_start row \<ge> date \<and> game_start row < next_day) sched_df)))"

text \<open>What the function hands back: \<open>None\<close>, or a sequence of results.\<close>

datatype py_value = NoneValue | Results "prediction_result list"

text \<open>A \<open>for\<close> loop whose body may raise and whose results are dropped.\<close>

fun for_each :: "('a \<Rightarrow> error + 'b) \<Rightarrow> 'a list \<Rightarrow> error + unit" where
  "for_each body [] = Inr ()"
| "for_each body (x # xs) =
     (case body x of Inl e \<Rightarrow> Inl e | Inr r \<Rightarrow> for_each body xs)"

definition predict_games_on_day ::
  "int \<Rightarrow> int \<Rightarrow> int \<Rightarrow> sched_row list \<Rightarrow> bool \<Rightarrow> regression \<Rightarrow> stats_table
     \<Rightarrow> error + py_value" where
  "predict_games_on_day day month year sched_df lines reg ff_df =
     (case games_on_date day month year sched_df of
        Inl e \<Rightarrow> Inl e
      | Inr on_date \<Rightarrow>
          if length on_date < 1 then Inl (NoGames month day year)
          else if lines then
            (let game_lines = [4, - 4] in
             case for_each (\<lambda>row. predict_game reg ff_df (game_start row)
                                     (PyStr (game_home row)) (PyStr (game_away row))
                                     (game_lines ! 0)) on_date of
               Inl e \<Rightarrow> Inl e
             | Inr u \<Rightarrow> Inr NoneValue)
          else
            (case for_each (\<lambda>row. predict_game reg ff_df (game_start row)
                                     (PyList [''home_team'']) (PyStr (game_away row)) 0)
                    on_date of
               Inl e \<Rightarrow> Inl e
             | Inr u \<Rightarrow> Inr NoneValue))"

section \<open>Sample data\<close>

definition sample_table :: stats_table where
  "sample_table =
     \<lparr>stat_columns = ''wins'' # four_factors,
      stat_rows =
        [\<lparr>team_name = ''Boston Celtics'', stat_values = [49, 1, 2, 3, 4, 5, 6, 7, 8]\<rparr>,
         \<lparr>team_name = ''Los Angeles Lakers'',
          stat_values = [37, 11, 12, 13, 14, 15, 16, 17, 18]\<rparr>]\<rparr>"

definition twin_table :: stats_table where
  "twin_table =
     \<lparr>stat_columns = four_factors,
      stat_rows =
        [\<lparr>team_name = ''LOS ANGELES LAKERS'', stat_values = [1, 2, 3, 4, 5, 6, 7, 8]\<rparr>,
         \<lparr>team_name = ''Los Angeles Lakers'',
          stat_values = [11, 12, 13, 14, 15, 16, 17, 18]\<rparr>]\<rparr>"

text \<open>A regression that predicts a margin of four points for every row.\<close>

definition sample_reg :: regression where
  "sample_reg = \<lparr>predict = (\<lambda>df. Inr (map (\<lambda>r. 4) (rows df))), residuals = [- 1, 1]\<rparr>"

definition sample_sched :: "sched_row list" where
  "sample_sched =
     [\<lparr>game_id = 1, game_start = 63675331200000000,
       game_home = ''Boston Celtics'', game_away = ''Los Angeles Lakers''\<rparr>,
      \<lparr>game_id = 2, game_start = 63675417600000000,
       game_home = ''Los Angeles Lakers'', game_away = ''Boston Celtics''\<rparr>]"

section \<open>Properties of the error function\<close>

lemma erf_term_abs:
  "\<bar>erf_term x m\<bar> = \<bar>x\<bar> * ((x\<^sup>2) ^ m / fact m) / real (2 * m + 1)"
proof -
  have "\<bar>x ^ (2 * m + 1)\<bar> = \<bar>x\<bar> * (x\<^sup>2) ^ m"
    by (simp add: power_mult abs_mult power_abs)
  then show ?thesis
    unfolding erf_term_def by (simp add: abs_mult power_abs)
qed

lemma erf_term_bound: "norm (erf_term x m) \<le> \<bar>x\<bar> * ((x\<^sup>2) ^ m /\<^sub>R fact m)"
proof -
  have nn: "0 \<le> \<bar>x\<bar> * ((x\<^sup>2) ^ m / fact m)"
    by (intro mult_nonneg_nonneg divide_nonneg_nonneg) simp_all
  have "\<bar>x\<bar> * ((x\<^sup>2) ^ m / fact m) / real (2 * m + 1)
      \<le> \<bar>x\<bar> * ((x\<^sup>2) ^ m / fact m) / 1"
    by (rule divide_left_mono [OF _ nn]) simp_all
  then show ?thesis
    by (simp add: erf_term_abs divide_inverse mult.commute)
qed

lemma erf_term_summable: "summable (erf_term x)"
proof (rule summable_comparison_test')
  show "summable (\<lambda>m. \<bar>x\<bar> * ((x\<^sup>2) ^ m /\<^sub>R fact m))"
    by (intro summable_mult summable_exp_generic)
  show "norm (erf_term x m) \<le> \<bar>x\<bar> * ((x\<^sup>2) ^ m /\<^sub>R fact m)" for m
    by (rule erf_term_bound)
qed

lemma erf_coeff_sums: "(\<lambda>n. erf_coeff n * x ^ n) sums erf_series x"
proof -
  have "erf_term x sums erf_series x"
    unfolding erf_series_def by (rule summable_sums [OF erf_term_summable])
  from sums_if' [OF this]
  have "(\<lambda>n. if even n then 0 else erf_term x ((n - 1) div 2)) sums erf_series x" .
  moreover have "(if even n then 0 else erf_term x ((n - 1) div 2)) = erf_coeff n * x ^ n"
    for n
  proof (cases "even n")
    case True
    then show ?thesis by (simp add: erf_coeff_def)
  next
    case False
    then obtain k where "n = 2 * k + 1" by (auto elim: oddE)
    then show ?thesis by (simp add: erf_coeff_def erf_term_def)
  qed
  ultimately show ?thesis by simp
qed

lemma erf_diffs_term:
  "(if even n then (- (x\<^sup>2)) ^ (n div 2) /\<^sub>R fact (n div 2) else 0)
     = diffs erf_coeff n * x ^ n"
proof (cases "even n")
  case True
  then obtain k where n: "n = 2 * k" by (auto elim: evenE)
  have "(- (x\<^sup>2)) ^ k = (- 1) ^ k * x ^ (2 * k)"
    by (simp add: power_minus [of "x\<^sup>2"] power_mult)
  then show ?thesis
    by (simp add: n diffs_def erf_coeff_def divide_inverse mult_ac)
next
  case False
  then show ?thesis by (simp add: diffs_def erf_coeff_def)
qed

lemma erf_diffs_sums: "(\<lambda>n. diffs erf_coeff n * x ^ n) sums exp (- (x\<^sup>2))"
proof -
  have "(\<lambda>m. (- (x\<^sup>2)) ^ m /\<^sub>R fact m) sums exp (- (x\<^sup>2))"
    by (rule exp_converges)
  from sums_if [OF sums_zero this]
  have "(\<lambda>n. if even n then (- (x\<^sup>2)) ^ (n div 2) /\<^sub>R fact (n div 2) else 0)
          sums exp (- (x\<^sup>2))"
    by simp
  then show ?thesis by (simp only: erf_diffs_term)
qed

text \<open>The series is differentiable term by term: its derivative is \<open>exp (- x\<^sup>2)\<close>.\<close>

lemma DERIV_erf_series: "DERIV erf_series x :> exp (- (x\<^sup>2))"
proof -
  have "\<And>y. summable (\<lambda>n. erf_coeff n * y ^ n)"
    using erf_coeff_sums by (rule sums_summable)
  from termdiffs_strong_converges_everywhere [OF this, of x]
  have "DERIV (\<lambda>x. \<Sum>n. erf_coeff n * x ^ n) x :> (\<Sum>n. diffs erf_coeff n * x ^ n)" .
  moreover have "(\<lambda>x. \<Sum>n. erf_coeff n * x ^ n) = erf_series"
    using erf_coeff_sums by (auto simp: sums_unique [symmetric])
  moreover have "(\<Sum>n. diffs erf_coeff n * x ^ n) = exp (- (x\<^sup>2))"
    using erf_diffs_sums by (rule sums_unique [symmetric])
  ultimately show ?thesis by simp
qed

lemma erf_series_strict_mono:
  assumes "a < b"
  shows "erf_series a < erf_series b"
proof -
  have "\<exists>y. DERIV erf_series x :> y \<and> 0 < y" for x
    using DERIV_erf_series [of x] exp_gt_zero [of "- (x\<^sup>2)"] by blast
  then show ?thesis
    using assms by (intro DERIV_pos_imp_increasing [of a b erf_series]) auto
qed

lemma erf_series_0: "erf_series 0 = 0"
  by (simp add: erf_series_def erf_term_def)

lemma std_normal_cdf_0: "std_normal_cdf 0 = 1 / 2"
  by (simp add: std_normal_cdf_def erf_def erf_series_0)

lemma std_normal_cdf_strict_mono:
  assumes "a < b"
  shows "std_normal_cdf a < std_normal_cdf b"
proof -
  have "a / sqrt 2 < b / sqrt 2"
    using assms by (simp add: divide_strict_right_mono)
  then have "erf_series (a / sqrt 2) < erf_series (b / sqrt 2)"
    by (rule erf_series_strict_mono)
  moreover have "0 < 2 / sqrt pi"
    by simp
  ultimately have "erf (a / sqrt 2) < erf (b / sqrt 2)"
    unfolding erf_def by (simp only: mult_strict_left_mono)
  then show ?thesis
    by (simp add: std_normal_cdf_def)
qed

text \<open>
  Over the reals, with a positive scale, the distribution function at a fixed point
  falls strictly as the mean rises.
\<close>

lemma norm_cdf_antimono_loc:
  assumes "0 < std" and "p1 < p2"
  shows "norm_cdf p2 std t < norm_cdf p1 std t"
proof -
  have "(t - p2) / std < (t - p1) / std"
    using assms by (simp add: divide_strict_right_mono)
  then show ?thesis
    unfolding norm_cdf_def by (rule std_normal_cdf_strict_mono)
qed

lemma norm_cdf_below_half:
  assumes "0 < std" and "t < p"
  shows "norm_cdf p std t < 1 / 2"
proof -
  have "(t - p) / std < 0"
    using assms by (simp add: divide_neg_pos)
  from std_normal_cdf_strict_mono [OF this] show ?thesis
    by (simp add: norm_cdf_def std_normal_cdf_0)
qed

lemma norm_sf_below_half:
  assumes "0 < std" and "p < t"
  shows "norm_sf p std t < 1 / 2"
proof -
  have "0 < (t - p) / std"
    using assms by simp
  from std_normal_cdf_strict_mono [OF this] show ?thesis
    by (simp add: norm_sf_def norm_cdf_def std_normal_cdf_0)
qed

section \<open>The branches of \<open>line_probability\<close>\<close>

text \<open>
  Claim C1. For every prediction \<open>p\<close>, line \<open>l\<close> and residual standard deviation
  \<open>std > 0\<close>, \<open>line_probability\<close> compares \<open>p\<close> with the threshold \<open>t = - l\<close>. When \<open>p > t\<close>
  it returns the distribution function of the normal law with mean \<open>p\<close> and deviation
  \<open>std\<close> at \<open>t\<close>, tagged \<open>cdf\<close>; when \<open>p < t\<close> it returns one minus that distribution
  function at \<open>t\<close>, tagged \<open>sf\<close>; when \<open>p = t\<close> it returns the probability \<open>0.5\<close>.
\<close>

theorem line_probability_branches:
  assumes "0 < std"
  shows "line_probability p l std =
           (if p > - l then PyTuple (std_normal_cdf ((- l - p) / std)) ''cdf''
            else if p < - l then PyTuple (1 - std_normal_cdf ((- l - p) / std)) ''sf''
            else PyFloat (1 / 2))"
  by (simp add: line_probability_def norm_sf_def norm_cdf_def)

theorem line_probability_branches_witness:
  "(0::real) < 2
   \<and> line_probability (16 / 5) (- 4) 2 = PyTuple (1 - std_normal_cdf ((4 - 16 / 5) / 2)) ''sf''
   \<and> line_probability 5 (- 4) 2 = PyTuple (std_normal_cdf ((4 - 5) / 2)) ''cdf''
   \<and> line_probability 4 (- 4) 2 = PyFloat (1 / 2)"
  using line_probability_branches [of 2 "16 / 5" "- 4"]
    line_probability_branches [of 2 5 "- 4"]
    line_probability_branches [of 2 4 "- 4"]
  by simp

section \<open>Monotonicity in the prediction\<close>

text \<open>
  Claim C3, as stated, asks for a probability that is non-decreasing in the prediction on
  the \<open>cdf\<close> branch and non-increasing on the \<open>sf\<close> branch. With line \<open>0\<close> and deviation
  \<open>1\<close>, the predictions \<open>1 < 2\<close> both take the \<open>cdf\<close> branch and the probability falls;
  the predictions \<open>-2 < -1\<close> both take the \<open>sf\<close> branch and the probability rises.
\<close>

theorem line_probability_monotone_counterexample:
  "line_probability 1 0 1 = PyTuple (norm_cdf 1 1 0) ''cdf''
   \<and> line_probability 2 0 1 = PyTuple (norm_cdf 2 1 0) ''cdf''
   \<and> \<not> norm_cdf 1 1 0 \<le> norm_cdf 2 1 0
   \<and> line_probability (- 2) 0 1 = PyTuple (norm_sf (- 2) 1 0) ''sf''
   \<and> line_probability (- 1) 0 1 = PyTuple (norm_sf (- 1) 1 0) ''sf''
   \<and> \<not> norm_sf (- 1) 1 0 \<le> norm_sf (- 2) 1 0"
proof -
  have "norm_cdf 2 1 0 < norm_cdf 1 1 0"
    by (rule norm_cdf_antimono_loc) simp_all
  moreover have "norm_cdf (- 1) 1 0 < norm_cdf (- 2) 1 0"
    by (rule norm_cdf_antimono_loc) simp_all
  ultimately show ?thesis
    by (simp add: line_probability_def norm_sf_def)
qed

text \<open>
  Claim C3, amended. Holding \<open>std > 0\<close> and the threshold \<open>t = - l\<close> fixed, the probability
  returned by \<open>line_probability\<close> is non-increasing in the prediction over the region of
  the \<open>cdf\<close> branch (\<open>p > t\<close>) and non-decreasing in the prediction over the region of the
  \<open>sf\<close> branch (\<open>p < t\<close>).
\<close>

theorem line_probability_monotone:
  assumes "0 < std"
  shows "(- l < p1 \<and> p1 \<le> p2 \<longrightarrow>
            line_probability p1 l std = PyTuple (norm_cdf p1 std (- l)) ''cdf''
          \<and> line_probability p2 l std = PyTuple (norm_cdf p2 std (- l)) ''cdf''
          \<and> norm_cdf p2 std (- l) \<le> norm_cdf p1 std (- l))
       \<and> (p1 \<le> p2 \<and> p2 < - l \<longrightarrow>
            line_probability p1 l std = PyTuple (norm_sf p1 std (- l)) ''sf''
          \<and> line_probability p2 l std = PyTuple (norm_sf p2 std (- l)) ''sf''
          \<and> norm_sf p1 std (- l) \<le> norm_sf p2 std (- l))"
proof -
  have weak: "norm_cdf p2 std (- l) \<le> norm_cdf p1 std (- l)" if "p1 \<le> p2"
  proof (cases "p1 = p2")
    case True
    then show ?thesis by simp
  next
    case False
    with that have "p1 < p2" by simp
    with assms have "norm_cdf p2 std (- l) < norm_cdf p1 std (- l)"
      by (rule norm_cdf_antimono_loc)
    then show ?thesis by simp
  qed
  show ?thesis
    using weak by (auto simp: line_probability_def norm_sf_def)
qed

theorem line_probability_monotone_witness:
  "(0::real) < 3 \<and> - (0::real) < 1 \<and> (1::real) \<le> 2
   \<and> line_probability 1 0 3 = PyTuple (norm_cdf 1 3 (- 0)) ''cdf''
   \<and> line_probability 2 0 3 = PyTuple (norm_cdf 2 3 (- 0)) ''cdf''
   \<and> norm_cdf 2 3 (- 0) \<le> norm_cdf 1 3 (- 0)
   \<and> (- 2 :: real) \<le> - 1 \<and> (- 1 :: real) < - 0
   \<and> line_probability (- 2) 0 3 = PyTuple (norm_sf (- 2) 3 (- 0)) ''sf''
   \<and> line_probability (- 1) 0 3 = PyTuple (norm_sf (- 1) 3 (- 0)) ''sf''
   \<and> norm_sf (- 2) 3 (- 0) \<le> norm_sf (- 1) 3 (- 0)"
  using line_probability_monotone [of 3 0 1 2] line_probability_monotone [of 3 0 "- 2" "- 1"]
  by simp

section \<open>The size of the reported probability\<close>

text \<open>
  Claim C4, as stated, says the returned probability is never below \<open>0.5\<close>. With
  prediction \<open>1\<close>, line \<open>0\<close> and deviation \<open>1\<close> the \<open>cdf\<close> branch is taken and the returned
  probability is the mass of the normal law with mean \<open>1\<close> below \<open>0\<close>, which is less than
  one half.
\<close>

theorem line_probability_half_counterexample:
  "probability_of (line_probability 1 0 1) = Some (norm_cdf 1 1 0)
   \<and> \<not> 1 / 2 \<le> norm_cdf 1 1 0"
proof -
  have "norm_cdf 1 1 0 < 1 / 2"
    by (rule norm_cdf_below_half) simp_all
  then show ?thesis
    by (simp add: line_probability_def)
qed

text \<open>
  Claim C4, amended. For every prediction \<open>p\<close>, line \<open>l\<close> and \<open>std > 0\<close>, the probability
  returned by \<open>line_probability\<close> is never more than \<open>0.5\<close>: the reported number measures
  the tail on the far side of the line from the prediction, the distribution function at
  \<open>t = - l\<close> when \<open>p > t\<close> and the survival function at \<open>t\<close> when \<open>p < t\<close>.
\<close>

theorem line_probability_at_most_half:
  assumes "0 < std"
  shows "\<exists>pr. probability_of (line_probability p l std) = Some pr
              \<and> pr \<le> 1 / 2
              \<and> (- l < p \<longrightarrow> pr = norm_cdf p std (- l))
              \<and> (p < - l \<longrightarrow> pr = norm_sf p std (- l))"
proof -
  consider "- l < p" | "p < - l" | "p = - l"
    by linarith
  then show ?thesis
  proof cases
    case 1
    from norm_cdf_below_half [OF assms this] show ?thesis
      using 1 by (simp add: line_probability_def)
  next
    case 2
    from norm_sf_below_half [OF assms this] show ?thesis
      using 2 by (simp add: line_probability_def)
  next
    case 3
    then have "probability_of (line_probability p l std) = Some (1 / 2)"
      by (simp add: line_probability_def)
    with 3 show ?thesis
      by (intro exI [of _ "1 / 2"]) simp
  qed
qed

theorem line_probability_at_most_half_witness:
  "(0::real) < 2 \<and> - (0::real) < 1
   \<and> probability_of (line_probability 1 0 2) = Some (norm_cdf 1 2 (- 0))
   \<and> norm_cdf 1 2 (- 0) \<le> 1 / 2"
proof -
  from line_probability_at_most_half [of 2 1 0] obtain pr where
    "probability_of (line_probability 1 0 2) = Some pr" and "pr \<le> 1 / 2"
    and "pr = norm_cdf 1 2 (- 0)"
    by auto
  then show ?thesis
    by simp
qed

section \<open>Resolving team names\<close>

lemma length_lower: "length (lower s) = length s"
  by (simp add: lower_def)

text \<open>
  Claim C7. For every input string, \<open>get_team_name\<close> returns the first canonical team name
  whose lowered form equals the lowered input, comparing against the fixed enumeration
  \<open>Team\<close>; when no canonical name matches it reports that nothing was found, which in the
  source is the value \<open>None\<close> handed to the caller. Only whole names match: a result has
  the length of the input, so no part of a name and no misspelling is accepted.
\<close>

theorem get_team_name_first_exact_match:
  "(get_team_name team = None \<longleftrightarrow> (\<forall>c\<in>set Team. lower team \<noteq> lower c))
   \<and> (\<forall>c. get_team_name team = Some c \<longleftrightarrow>
          (\<exists>i<length Team. Team ! i = c \<and> lower team = lower c
             \<and> (\<forall>j<i. lower team \<noteq> lower (Team ! j))))
   \<and> (\<forall>c. get_team_name team = Some c \<longrightarrow> length team = length c)"
proof (intro conjI allI impI)
  show "get_team_name team = None \<longleftrightarrow> (\<forall>c\<in>set Team. lower team \<noteq> lower c)"
    unfolding get_team_name_def find_None_iff by blast
  show "get_team_name team = Some c \<longleftrightarrow>
          (\<exists>i<length Team. Team ! i = c \<and> lower team = lower c
             \<and> (\<forall>j<i. lower team \<noteq> lower (Team ! j)))" for c
    unfolding get_team_name_def find_Some_iff by blast
  show "length team = length c" if "get_team_name team = Some c" for c
  proof -
    from that have "lower team = lower c"
      unfolding get_team_name_def find_Some_iff by blast
    then have "length (lower team) = length (lower c)"
      by simp
    then show ?thesis
      by (simp add: length_lower)
  qed
qed

theorem get_team_name_first_exact_match_witness:
  "get_team_name ''boston celtics'' = Some ''BOSTON CELTICS''
   \<and> length ''boston celtics'' = length ''BOSTON CELTICS''
   \<and> get_team_name ''Celtics'' = None
   \<and> ''BOSTON CELTICS'' \<in> set Team
   \<and> lower ''Celtics'' \<noteq> lower ''BOSTON CELTICS''"
proof -
  have found: "get_team_name ''boston celtics'' = Some ''BOSTON CELTICS''"
    by code_simp
  have missing: "get_team_name ''Celtics'' = None"
    by code_simp
  have member: "''BOSTON CELTICS'' \<in> set Team"
    by code_simp
  from get_team_name_first_exact_match [of "''boston celtics''"] found
  have same_length: "length ''boston celtics'' = length ''BOSTON CELTICS''"
    by blast
  from get_team_name_first_exact_match [of "''Celtics''"] missing member
  have different: "lower ''Celtics'' \<noteq> lower ''BOSTON CELTICS''"
    by blast
  from found same_length missing member different show ?thesis
    by blast
qed

section \<open>Extracting the four factors\<close>

text \<open>
  Claim C6, as stated, has the extraction fail with \<open>TeamNotFound\<close> when no row matches and
  with \<open>AmbiguousTeam\<close> when several do. \<open>get_team_ff\<close> has neither failure: for a team
  that the table does not hold it returns a frame without rows, and for a team that the
  table holds twice in different case it returns both rows.
\<close>

theorem get_team_ff_failure_counterexample:
  "get_team_ff (Some ''UTAH JAZZ'') twin_table True
     = Inr \<lparr>columns = map append_h four_factors, rows = []\<rparr>
   \<and> get_team_ff (Some ''LOS ANGELES LAKERS'') twin_table True
     = Inr \<lparr>columns = map append_h four_factors,
            rows = [[1, 2, 3, 4, 5, 6, 7, 8], [11, 12, 13, 14, 15, 16, 17, 18]]\<rparr>"
  by code_simp

text \<open>
  Claim C6, amended. For every team identifier and every stats table that has the eight
  four-factor columns, the extraction does not fail, whatever the number of matching
  rows: it returns the eight suffixed columns with one row for each table row whose team
  name matches case-insensitively, in table order; that is no row when none matches and
  every matching row when more than one does.
\<close>

theorem get_team_ff_keeps_every_match:
  assumes "set four_factors \<subseteq> set (stat_columns ff_df)"
  shows "get_team_ff (Some team) ff_df home =
           Inr \<lparr>columns = map (if home then append_h else append_a) four_factors,
                rows = map (\<lambda>r. map (cell (stat_columns ff_df) (stat_values r)) four_factors)
                         (filter (\<lambda>r. lower (team_name r) = lower team) (stat_rows ff_df))\<rparr>"
  using assms by (simp add: get_team_ff_def rename_columns_def)

theorem get_team_ff_keeps_every_match_witness:
  "set four_factors \<subseteq> set (stat_columns twin_table)
   \<and> get_team_ff (Some ''Los Angeles Lakers'') twin_table False =
       Inr \<lparr>columns = map (if False then append_h else append_a) four_factors,
            rows = map (\<lambda>r. map (cell (stat_columns twin_table) (stat_values r)) four_factors)
                     (filter (\<lambda>r. lower (team_name r) = lower ''Los Angeles Lakers'')
                        (stat_rows twin_table))\<rparr>
   \<and> length (filter (\<lambda>r. lower (team_name r) = lower ''Los Angeles Lakers'')
               (stat_rows twin_table)) = 2"
proof -
  have cols: "set four_factors \<subseteq> set (stat_columns twin_table)"
    by (simp add: twin_table_def)
  have two: "length (filter (\<lambda>r. lower (team_name r) = lower ''Los Angeles Lakers'')
               (stat_rows twin_table)) = 2"
    by code_simp
  from get_team_ff_keeps_every_match [OF cols, of "''Los Angeles Lakers''" False]
  show ?thesis
    using cols two by simp
qed

section \<open>Building the feature frame\<close>

lemma prediction_columns_shape:
  "length prediction_columns = 17 \<and> sorted prediction_columns \<and> distinct prediction_columns"
  by code_simp

lemma prediction_columns_names:
  "set prediction_columns
     = insert ''const'' (set (map append_h four_factors) \<union> set (map append_a four_factors))"
  by code_simp

text \<open>
  Claim C2. When the home extraction is a single row of the eight factors suffixed \<open>_h\<close>
  and the away extraction a single row of the eight factors suffixed \<open>_a\<close>,
  \<open>create_prediction_df\<close> returns a single row of exactly seventeen named numbers: the
  eight home factors, the eight away factors and the column \<open>const\<close> with value \<open>1\<close>, the
  names in the order of their spelling. The result is a function of the two rows alone,
  so equal inputs give the same names, order and values on every call.
\<close>

theorem create_prediction_df_single_rows:
  assumes "get_team_ff home_tm ff_df True
             = Inr \<lparr>columns = map append_h four_factors,
                    rows = [[h0, h1, h2, h3, h4, h5, h6, h7]]\<rparr>"
    and "get_team_ff away_tm ff_df False
             = Inr \<lparr>columns = map append_a four_factors,
                    rows = [[a0, a1, a2, a3, a4, a5, a6, a7]]\<rparr>"
  shows "create_prediction_df home_tm away_tm ff_df
           = Inr \<lparr>columns = prediction_columns,
                  rows = [[1, a6, h6, a0, h0, a3, h3, a4, h4, a7, h7, a5, h5, a2, h2, a1, h1]]\<rparr>
         \<and> length prediction_columns = 17
         \<and> sorted prediction_columns \<and> distinct prediction_columns
         \<and> set prediction_columns
             = insert ''const''
                 (set (map append_h four_factors) \<union> set (map append_a four_factors))"
proof -
  have "create_prediction_df home_tm away_tm ff_df
           = Inr \<lparr>columns = prediction_columns,
                  rows = [[1, a6, h6, a0, h0, a3, h3, a4, h4, a7, h7, a5, h5, a2, h2, a1, h1]]\<rparr>"
    unfolding create_prediction_df_def
    by (simp only: assms sum.case) code_simp
  then show ?thesis
    using prediction_columns_shape prediction_columns_names by blast
qed

theorem create_prediction_df_single_rows_witness:
  "get_team_ff (Some ''BOSTON CELTICS'') sample_table True
     = Inr \<lparr>columns = map append_h four_factors, rows = [[1, 2, 3, 4, 5, 6, 7, 8]]\<rparr>
   \<and> get_team_ff (Some ''LOS ANGELES LAKERS'') sample_table False
     = Inr \<lparr>columns = map append_a four_factors,
            rows = [[11, 12, 13, 14, 15, 16, 17, 18]]\<rparr>
   \<and> create_prediction_df (Some ''BOSTON CELTICS'') (Some ''LOS ANGELES LAKERS'') sample_table
     = Inr \<lparr>columns = prediction_columns,
            rows = [[1, 17, 7, 11, 1, 14, 4, 15, 5, 18, 8, 16, 6, 13, 3, 12, 2]]\<rparr>"
proof -
  have home: "get_team_ff (Some ''BOSTON CELTICS'') sample_table True
     = Inr \<lparr>columns = map append_h four_factors, rows = [[1, 2, 3, 4, 5, 6, 7, 8]]\<rparr>"
    by code_simp
  have away: "get_team_ff (Some ''LOS ANGELES LAKERS'') sample_table False
     = Inr \<lparr>columns = map append_a four_factors,
            rows = [[11, 12, 13, 14, 15, 16, 17, 18]]\<rparr>"
    by code_simp
  from create_prediction_df_single_rows [OF home away] show ?thesis
    using home away by simp
qed

section \<open>The calendar\<close>

lemma add_days_Inr: "add_days t n = Inr r \<Longrightarrow> r = t + n * us_per_day"
  by (simp add: add_days_def Let_def split: if_splits)

lemma datetime_Inr:
  "datetime y m d = Inr t \<longleftrightarrow>
     1 \<le> y \<and> y \<le> 9999 \<and> 1 \<le> m \<and> m \<le> 12 \<and> 1 \<le> d \<and> d \<le> days_in_month y m
     \<and> t = (ymd2ord y m d - 1) * us_per_day"
  by (auto simp: datetime_def)

lemma days_in_month_pos: "1 \<le> days_in_month y m"
  by (simp add: days_in_month_def)

lemma days_before_month_Suc:
  assumes "1 \<le> m"
  shows "days_before_month y (m + 1) = days_before_month y m + days_in_month y m"
proof -
  from assms have "[1..m + 1 - 1] = [1..m - 1] @ [m]"
    using upto_rec2 [of 1 m] by simp
  then show ?thesis
    by (simp add: days_before_month_def)
qed

lemma days_before_month_1: "days_before_month y 1 = 0"
  by (simp add: days_before_month_def)

lemma days_before_month_12: "days_before_month y 12 = (if is_leap y then 335 else 334)"
proof -
  have "[1..11::int] = [1, 2, 3, 4, 5, 6, 7, 8, 9, 10, 11]"
    by code_simp
  then show ?thesis
    by (simp add: days_before_month_def days_in_month_def)
qed

lemma div_succ:
  fixes z k :: int
  assumes "0 < k"
  shows "(z + 1) div k = z div k + (if (z + 1) mod k = 0 then 1 else 0)"
proof -
  define q where "q = z div k"
  define r where "r = z mod k"
  have z: "z = q * k + r"
    by (simp add: q_def r_def)
  have r: "0 \<le> r" "r < k"
    using assms by (simp_all add: r_def)
  show ?thesis
  proof (cases "r + 1 = k")
    case True
    then have "z + 1 = (q + 1) * k"
      using z by (simp add: algebra_simps)
    then have "(z + 1) div k = q + 1 \<and> (z + 1) mod k = 0"
      using assms by simp
    then show ?thesis
      by (simp add: q_def)
  next
    case False
    with r have small: "0 \<le> r + 1" "r + 1 < k"
      by simp_all
    have "z + 1 = (r + 1) + q * k"
      using z by simp
    then have "(z + 1) div k = q \<and> (z + 1) mod k = r + 1"
      using small
      by (simp only: div_mult_self1 mod_mult_self1 div_mult_self3 mod_mult_self3
          div_pos_pos_trivial mod_pos_pos_trivial) simp
    with small r show ?thesis
      by (simp add: q_def)
  qed
qed

lemma days_before_year_Suc:
  "days_before_year (y + 1) = days_before_year y + (if is_leap y then 366 else 365)"
proof -
  define p4 where "p4 \<longleftrightarrow> y mod 4 = 0"
  define p100 where "p100 \<longleftrightarrow> y mod 100 = 0"
  define p400 where "p400 \<longleftrightarrow> y mod 400 = 0"
  define q4 where "q4 = (y - 1) div 4"
  define q100 where "q100 = (y - 1) div 100"
  define q400 where "q400 = (y - 1) div 400"
  have d4: "y div 4 = q4 + (if p4 then 1 else 0)"
    using div_succ [of 4 "y - 1"] by (simp add: p4_def q4_def)
  have d100: "y div 100 = q100 + (if p100 then 1 else 0)"
    using div_succ [of 100 "y - 1"] by (simp add: p100_def q100_def)
  have d400: "y div 400 = q400 + (if p400 then 1 else 0)"
    using div_succ [of 400 "y - 1"] by (simp add: p400_def q400_def)
  have a: "p100" if "p400"
  proof -
    from that have "400 dvd y"
      unfolding p400_def by (simp only: mod_eq_0_iff_dvd)
    moreover have "(100::int) dvd 400"
      by simp
    ultimately have "100 dvd y"
      using dvd_trans by blast
    then show ?thesis
      unfolding p100_def by (simp only: mod_eq_0_iff_dvd)
  qed
  have b: "p4" if "p100"
  proof -
    from that have "100 dvd y"
      unfolding p100_def by (simp only: mod_eq_0_iff_dvd)
    moreover have "(4::int) dvd 100"
      by simp
    ultimately have "4 dvd y"
      using dvd_trans by blast
    then show ?thesis
      unfolding p4_def by (simp only: mod_eq_0_iff_dvd)
  qed
  have next_year: "days_before_year (y + 1) = y * 365 + y div 4 - y div 100 + y div 400"
    by (simp add: days_before_year_def)
  have this_year: "days_before_year y = (y - 1) * 365 + q4 - q100 + q400"
    by (simp add: days_before_year_def q4_def q100_def q400_def)
  have leap: "is_leap y \<longleftrightarrow> p4 \<and> (\<not> p100 \<or> p400)"
    by (simp only: is_leap_def p4_def p100_def p400_def)
  show ?thesis
    unfolding next_year this_year leap d4 d100 d400
    using a b by (cases p4; cases p100; cases p400) (simp_all add: algebra_simps)
qed

lemma next_ordinal:
  "(ymd2ord y m d - 1) * us_per_day + 1 * us_per_day = (ymd2ord y m d + 1 - 1) * us_per_day"
  by (simp add: algebra_simps)

text \<open>Adding one day leads to midnight of the next calendar date.\<close>

lemma datetime_next_day:
  assumes "datetime y m d = Inr date" and "add_days date 1 = Inr next_day"
  shows "datetime (if d < days_in_month y m \<or> m < 12 then y else y + 1)
           (if d < days_in_month y m then m else if m < 12 then m + 1 else 1)
           (if d < days_in_month y m then d + 1 else 1) = Inr next_day"
proof -
  from assms(1) have valid: "1 \<le> y" "y \<le> 9999" "1 \<le> m" "m \<le> 12" "1 \<le> d"
    "d \<le> days_in_month y m" and date: "date = (ymd2ord y m d - 1) * us_per_day"
    by (simp_all add: datetime_Inr)
  from assms(2) have "next_day = date + 1 * us_per_day"
    by (rule add_days_Inr)
  with date have next_day: "next_day = (ymd2ord y m d + 1 - 1) * us_per_day"
    by (simp only: next_ordinal)
  consider "d < days_in_month y m" | "d = days_in_month y m" "m < 12"
    | "d = days_in_month y m" "m = 12"
    using valid by linarith
  then show ?thesis
  proof cases
    case 1
    have "ymd2ord y m (d + 1) = ymd2ord y m d + 1"
      by (simp add: ymd2ord_def)
    with 1 valid show ?thesis
      by (simp add: datetime_Inr next_day)
  next
    case 2
    have "ymd2ord y (m + 1) 1 = ymd2ord y m d + 1"
      using 2 valid by (simp add: ymd2ord_def days_before_month_Suc)
    with 2 valid show ?thesis
      by (simp add: datetime_Inr next_day days_in_month_pos)
  next
    case 3
    then have d: "d = 31"
      by (simp add: days_in_month_def)
    have "y \<noteq> 9999"
    proof
      assume "y = 9999"
      with 3 d date have "date + 1 * us_per_day = ymd2ord 9999 12 31 * us_per_day"
        by (simp add: algebra_simps)
      with assms(2) show False
        by (simp add: add_days_def Let_def)
    qed
    with valid have y: "y + 1 \<le> 9999" "1 \<le> y + 1"
      by simp_all
    have "ymd2ord (y + 1) 1 1 = ymd2ord y 12 31 + 1"
      by (simp add: ymd2ord_def days_before_year_Suc days_before_month_1 days_before_month_12)
    with 3 d y show ?thesis
      by (simp add: datetime_Inr next_day days_in_month_def)
  qed
qed

section \<open>The games of a day\<close>

text \<open>
  Claim C8. When the date exists and has a following day, the date mask keeps exactly the
  schedule rows whose start lies in the half-open interval from midnight of the date to
  midnight one day later, which is midnight of the next calendar date: a game starting at
  midnight of the date is kept and a game starting at midnight of the following date is
  not.
\<close>

theorem games_on_date_half_open:
  assumes "datetime year month day = Inr date" and "add_days date 1 = Inr next_day"
  shows "next_day = date + us_per_day
     \<and> games_on_date day month year sched_df
         = Inr (filter (\<lambda>row. date \<le> game_start row \<and> game_start row < date + us_per_day)
                  sched_df)
     \<and> (\<forall>row\<in>set sched_df. game_start row = date \<longrightarrow>
           (\<exists>kept. games_on_date day month year sched_df = Inr kept \<and> row \<in> set kept))
     \<and> (\<forall>row. game_start row = next_day \<longrightarrow>
           (\<exists>kept. games_on_date day month year sched_df = Inr kept \<and> row \<notin> set kept))
     \<and> datetime (if day < days_in_month year month \<or> month < 12 then year else year + 1)
           (if day < days_in_month year month then month
            else if month < 12 then month + 1 else 1)
           (if day < days_in_month year month then day + 1 else 1) = Inr next_day"
proof -
  have next_day: "next_day = date + us_per_day"
    using add_days_Inr [OF assms(2)] by simp
  have kept: "games_on_date day month year sched_df
         = Inr (filter (\<lambda>row. date \<le> game_start row \<and> game_start row < date + us_per_day)
                  sched_df)"
    using assms by (simp add: games_on_date_def next_day)
  have pos: "0 < us_per_day"
    by (simp add: us_per_day_def)
  have first: "\<exists>kept. games_on_date day month year sched_df = Inr kept \<and> row \<in> set kept"
    if "row \<in> set sched_df" "game_start row = date" for row
    using that pos by (simp add: kept)
  have last: "\<exists>kept. games_on_date day month year sched_df = Inr kept \<and> row \<notin> set kept"
    if "game_start row = next_day" for row
    using that by (simp add: kept next_day)
  show ?thesis
    using next_day kept first last datetime_next_day [OF assms] by blast
qed

theorem games_on_date_half_open_witness:
  "datetime 2018 10 17 = Inr 63675331200000000
   \<and> add_days 63675331200000000 1 = Inr 63675417600000000
   \<and> games_on_date 17 10 2018 sample_sched
       = Inr [\<lparr>game_id = 1, game_start = 63675331200000000,
               game_home = ''Boston Celtics'', game_away = ''Los Angeles Lakers''\<rparr>]
   \<and> datetime 2018 10 18 = Inr 63675417600000000"
proof -
  have d: "datetime 2018 10 17 = Inr 63675331200000000"
    by code_simp
  have n: "add_days 63675331200000000 1 = Inr 63675417600000000"
    by code_simp
  have m: "(17::int) < days_in_month 2018 10"
    by code_simp
  have f: "filter (\<lambda>row. 63675331200000000 \<le> game_start row
              \<and> game_start row < 63675331200000000 + us_per_day) sample_sched
       = [\<lparr>game_id = 1, game_start = 63675331200000000,
           game_home = ''Boston Celtics'', game_away = ''Los Angeles Lakers''\<rparr>]"
    by code_simp
  from games_on_date_half_open [OF d n, of sample_sched] m f show ?thesis
    using d n by simp
qed

text \<open>
  Claim C9. For every date and schedule, when the rows that the date mask keeps are none,
  \<open>predict_games_on_day\<close> raises its exception about no games on that date instead of
  returning, whatever the other arguments are.
\<close>

theorem no_games_raises:
  assumes "games_on_date day month year sched_df = Inr []"
  shows "predict_games_on_day day month year sched_df lines reg ff_df
           = Inl (NoGames month day year)"
  using assms by (simp add: predict_games_on_day_def)

theorem no_games_raises_witness:
  "games_on_date 16 10 2018 sample_sched = Inr []
   \<and> predict_games_on_day 16 10 2018 sample_sched True sample_reg sample_table
       = Inl (NoGames 10 16 2018)"
proof -
  have e: "games_on_date 16 10 2018 sample_sched = Inr []"
    by code_simp
  from no_games_raises [OF e] show ?thesis
    using e by simp
qed

section \<open>The prediction that equals the negated line\<close>

lemma line_probability_equal: "line_probability (- l) l std = PyFloat (1 / 2)"
  by (simp add: line_probability_def)

lemma predict_game_Inr_prediction:
  assumes "predict_game reg ff_df start home_tm away_tm l = Inr res"
  shows "prediction res \<noteq> - l"
proof
  assume eq: "prediction res = - l"
  from assms obtain home away pred_df pred prob func where
    "get_prediction reg pred_df = Inr pred"
    and lp: "line_probability pred l (np_std (residuals reg)) = PyTuple prob func"
    and res: "res = \<lparr>start_time = start, home_team = home, away_team = away, line = l,
               prediction = pred, probability = prob, function_tag = func\<rparr>"
    by (auto simp: predict_game_def split: sum.splits py_result.splits)
  from res eq have "pred = - l"
    by simp
  with lp show False
    by (simp add: line_probability_equal)
qed

text \<open>
  Claim C10. When the prediction equals the negated line, whatever the deviation,
  \<open>line_probability\<close> returns the bare number \<open>0.5\<close> and no pair. \<open>predict_game\<close> unpacks
  the result into a probability and a tag, which fails on a bare number: a run that
  reaches \<open>line_probability\<close> with such a prediction ends in \<open>TypeError\<close>, and no result
  that \<open>predict_game\<close> returns has a prediction equal to the negated line.
\<close>

theorem equal_prediction_never_returns:
  "line_probability (- l) l std = PyFloat (1 / 2)
   \<and> (\<forall>res. predict_game reg ff_df start home_tm away_tm l = Inr res
         \<longrightarrow> prediction res \<noteq> - l)
   \<and> (\<forall>home away pred_df.
         get_team_name_call home_tm = Inr home \<and> get_team_name_call away_tm = Inr away
         \<and> create_prediction_df home away ff_df = Inr pred_df
         \<and> get_prediction reg pred_df = Inr (- l)
         \<longrightarrow> predict_game reg ff_df start home_tm away_tm l = Inl TypeError)"
proof (intro conjI allI impI)
  show "line_probability (- l) l std = PyFloat (1 / 2)"
    by (rule line_probability_equal)
  show "prediction res \<noteq> - l"
    if "predict_game reg ff_df start home_tm away_tm l = Inr res" for res
    using that by (rule predict_game_Inr_prediction)
  show "predict_game reg ff_df start home_tm away_tm l = Inl TypeError"
    if "get_team_name_call home_tm = Inr home \<and> get_team_name_call away_tm = Inr away
         \<and> create_prediction_df home away ff_df = Inr pred_df
         \<and> get_prediction reg pred_df = Inr (- l)" for home away pred_df
    using that by (simp add: predict_game_def line_probability_equal)
qed

lemma sample_names:
  "get_team_name_call (PyStr ''Boston Celtics'') = Inr (Some ''BOSTON CELTICS'')
   \<and> get_team_name_call (PyStr ''Los Angeles Lakers'') = Inr (Some ''LOS ANGELES LAKERS'')"
  by code_simp

lemma sample_frame:
  "create_prediction_df (Some ''BOSTON CELTICS'') (Some ''LOS ANGELES LAKERS'') sample_table
     = Inr \<lparr>columns = prediction_columns,
            rows = [[1, 17, 7, 11, 1, 14, 4, 15, 5, 18, 8, 16, 6, 13, 3, 12, 2]]\<rparr>"
  by code_simp

lemma sample_prediction:
  "get_prediction sample_reg \<lparr>columns = prediction_columns,
            rows = [[1, 17, 7, 11, 1, 14, 4, 15, 5, 18, 8, 16, 6, 13, 3, 12, 2]]\<rparr> = Inr 4"
  by (simp add: get_prediction_def sample_reg_def)

theorem equal_prediction_never_returns_witness:
  "get_team_name_call (PyStr ''Boston Celtics'') = Inr (Some ''BOSTON CELTICS'')
   \<and> get_team_name_call (PyStr ''Los Angeles Lakers'') = Inr (Some ''LOS ANGELES LAKERS'')
   \<and> create_prediction_df (Some ''BOSTON CELTICS'') (Some ''LOS ANGELES LAKERS'') sample_table
       = Inr \<lparr>columns = prediction_columns,
              rows = [[1, 17, 7, 11, 1, 14, 4, 15, 5, 18, 8, 16, 6, 13, 3, 12, 2]]\<rparr>
   \<and> get_prediction sample_reg \<lparr>columns = prediction_columns,
              rows = [[1, 17, 7, 11, 1, 14, 4, 15, 5, 18, 8, 16, 6, 13, 3, 12, 2]]\<rparr>
       = Inr (- (- 4))
   \<and> predict_game sample_reg sample_table 0 (PyStr ''Boston Celtics'')
        (PyStr ''Los Angeles Lakers'') (- 4) = Inl TypeError"
  using equal_prediction_never_returns [of "- 4" _ sample_reg sample_table 0
      "PyStr ''Boston Celtics''" "PyStr ''Los Angeles Lakers''"]
    sample_names sample_frame sample_prediction
  by simp

section \<open>What \<open>predict_games_on_day\<close> returns\<close>

lemma predict_games_on_day_never_results:
  "predict_games_on_day day month year sched_df lines reg ff_df \<noteq> Inr (Results rs)"
  by (simp add: predict_games_on_day_def Let_def split: sum.splits)

lemma predict_game_list_home:
  "predict_game reg ff_df start (PyList l) away_tm home_line = Inl AttributeError"
  by (simp add: predict_game_def get_team_name_call_def)

lemma predict_games_on_day_without_lines:
  assumes "games_on_date day month year sched_df = Inr (g # gs)"
  shows "predict_games_on_day day month year sched_df False reg ff_df = Inl AttributeError"
  using assms by (simp add: predict_games_on_day_def predict_game_list_home)

lemma sample_games:
  "games_on_date 17 10 2018 sample_sched
     = Inr [\<lparr>game_id = 1, game_start = 63675331200000000,
             game_home = ''Boston Celtics'', game_away = ''Los Angeles Lakers''\<rparr>]"
  by code_simp

lemma sample_game_with_line:
  "predict_game sample_reg sample_table start (PyStr ''Boston Celtics'')
     (PyStr ''Los Angeles Lakers'') 4
   = Inr \<lparr>start_time = start, home_team = Some ''BOSTON CELTICS'',
          away_team = Some ''LOS ANGELES LAKERS'', line = 4, prediction = 4,
          probability = norm_cdf 4 (np_std (residuals sample_reg)) (- 4),
          function_tag = ''cdf''\<rparr>"
  by (simp add: predict_game_def sample_names sample_frame sample_prediction
      line_probability_def)

text \<open>
  Claim C5 expects, for a date with at least one game, a sequence of results, one for each
  schedule row in order, each predicted with its supplied line or with the line \<open>0\<close>. On
  the seventeenth of October 2018 the sample schedule has one game. Without lines the
  call passes the list \<open>["home_team"]\<close> as the home team and ends in \<open>AttributeError\<close>
  before any game is predicted; with lines every game is predicted against the fixed
  line \<open>4\<close>, the results are dropped, and the call returns \<open>None\<close>.
\<close>

theorem predict_games_on_day_returns_no_results:
  "games_on_date 17 10 2018 sample_sched
     = Inr [\<lparr>game_id = 1, game_start = 63675331200000000,
             game_home = ''Boston Celtics'', game_away = ''Los Angeles Lakers''\<rparr>]
   \<and> predict_games_on_day 17 10 2018 sample_sched False sample_reg sample_table
       = Inl AttributeError
   \<and> predict_games_on_day 17 10 2018 sample_sched True sample_reg sample_table
       = Inr NoneValue"
proof -
  have without_lines:
    "predict_games_on_day 17 10 2018 sample_sched False sample_reg sample_table
       = Inl AttributeError"
    using sample_games by (rule predict_games_on_day_without_lines)
  have with_lines:
    "predict_games_on_day 17 10 2018 sample_sched True sample_reg sample_table
       = Inr NoneValue"
    by (simp add: predict_games_on_day_def sample_games sample_game_with_line)
  from sample_games without_lines with_lines show ?thesis
    by blast
qed

end
